theory Spec2Isabelle
  imports Main "HOL-Library.Sublist"
begin

section \<open>The message bus of the agentic RAG chatbot\<close>

text \<open>
  This theory embeds \<^verbatim>\<open>src/models/mcp.py\<close> (the envelope \<^verbatim>\<open>MCPMessage\<close>, the
  broker \<^verbatim>\<open>MCPBroker\<close> and the helper \<^verbatim>\<open>create_mcp_message\<close>) and
  \<^verbatim>\<open>src/agents/base_agent.py\<close> (the class \<^verbatim>\<open>BaseAgent\<close>).

  The Python objects are mutable and shared; the model threads one state, the
  \<open>world\<close>, through every operation. Callbacks are Python callables whose bodies are not
  part of the bus: they are parameters of the model (a table \<open>env\<close> from handler names
  to state transformers that may return, raise or never come back).
\<close>

subsection \<open>Envelopes\<close>

text \<open>
  \<^verbatim>\<open>class MCPMessage(BaseModel)\<close> with \<^verbatim>\<open>Config.frozen = True\<close>: five fields. The
  payload is a \<^verbatim>\<open>Dict[str, Any]\<close> that the bus never looks into, so its type is a
  parameter \<open>'p\<close>. Envelopes are values here; that the Python objects are frozen is what
  justifies it. (Freezing does not reach into the payload dictionary, which a handler
  could still change in place; no handler of the repository does.)
\<close>

record 'p MCPMessage =
  sender :: string
  receiver :: string
  type :: string
  trace_id :: string
  payload :: 'p

subsection \<open>Callables, agent objects, logs and the state\<close>

text \<open>
  A callback stored in the broker is either a plain callable, known by a name \<open>h\<close>
  whose behaviour the table \<open>env\<close> gives, or the bound method
  \<^verbatim>\<open>agent._handle_message\<close> of the agent object at reference \<open>a\<close>
  (\<^verbatim>\<open>mcp_broker.subscribe(agent_id, self._handle_message)\<close> in
  \<^verbatim>\<open>BaseAgent.__init__\<close>).
\<close>

datatype callback = Function nat | HandleMessage nat

text \<open>
  A \<^verbatim>\<open>BaseAgent\<close> object: its \<^verbatim>\<open>agent_id\<close>, the name of the class-level logger
  \<^verbatim>\<open>_logger\<close> (\<^verbatim>\<open>"BaseAgent"\<close>, or the subclass's own) and the table
  \<^verbatim>\<open>_callbacks\<close> from message type to the list of registered handlers. The instance
  logger \<^verbatim>\<open>self.logger\<close> is named by \<^verbatim>\<open>agent_id\<close>.
\<close>

record BaseAgent =
  agent_id :: string
  class_logger :: string
  callbacks :: "string \<rightharpoonup> nat list"

text \<open>
  A call of a \<^verbatim>\<open>Logger\<close> method is recorded as the logger's name, the level, the text
  of the (f-)string as the source writes it, and the values it interpolates or passes as
  keywords, in source order.
\<close>

datatype level = INFO | WARNING

datatype 'p arg = Str string | Num nat | Opt "string option" | Msg "'p MCPMessage"

type_synonym 'p log_entry = "string \<times> level \<times> string \<times> 'p arg list"

text \<open>
  The state: the broker singleton \<^verbatim>\<open>mcp_broker\<close> (\<^verbatim>\<open>_subscribers\<close>,
  \<^verbatim>\<open>_message_history\<close>), the agent objects constructed so far (a reference is the
  position in \<open>agents\<close>; objects are never destroyed), and the log. Two further fields
  are an observer's record and are not read by any operation: \<open>delivered\<close> lists the
  callbacks that \<^verbatim>\<open>MCPBroker.publish\<close> has called, \<open>handled\<close> the handlers that an
  agent's \<^verbatim>\<open>_handle_message\<close> has called, each with the envelope passed. Whatever else a
  handler owns lives in the extension \<open>'x\<close> of the record.
\<close>

record 'p world =
  subscribers :: "string \<rightharpoonup> callback list"
  message_history :: "'p MCPMessage list"
  agents :: "BaseAgent list"
  logs :: "'p log_entry list"
  delivered :: "(callback \<times> 'p MCPMessage) list"
  handled :: "(nat \<times> nat \<times> 'p MCPMessage) list"

text \<open>
  A call returns a value and a state, raises an exception (with the state reached when it
  was raised), or never comes back (\<open>None\<close> at the \<open>option\<close> level).
\<close>

datatype ('a, 'w) outcome = Returned 'a 'w | Raised string 'w

fun world_of :: "('a, 'w) outcome \<Rightarrow> 'w" where
  "world_of (Returned u w) = w"
| "world_of (Raised e w) = w"


type_synonym ('p, 'x) handlers =
  "nat \<Rightarrow> 'p MCPMessage \<Rightarrow> ('p, 'x) world_scheme \<Rightarrow> (unit, ('p, 'x) world_scheme) outcome option"

definition log ::
  "string \<Rightarrow> level \<Rightarrow> string \<Rightarrow> 'p arg list \<Rightarrow> ('p, 'x) world_scheme \<Rightarrow> ('p, 'x) world_scheme"
where
  "log name lvl text args w = w\<lparr>logs := logs w @ [(name, lvl, text, args)]\<rparr>"

text \<open>\<^verbatim>\<open>Logger.log_mcp_message(message.dict(), direction)\<close>.\<close>

definition log_mcp_message ::
  "string \<Rightarrow> 'p MCPMessage \<Rightarrow> string \<Rightarrow> ('p, 'x) world_scheme \<Rightarrow> ('p, 'x) world_scheme"
where
  "log_mcp_message name message direction w =
     log name INFO ''MCP message {direction}''
       [Str direction, Str (sender message), Str (receiver message), Str (type message),
        Str (trace_id message)] w"

subsection \<open>Python's \<^verbatim>\<open>for\<close> over a list that may grow meanwhile\<close>

text \<open>
  \<^verbatim>\<open>for x in xs: body\<close> reads \<^verbatim>\<open>xs\<close> afresh at every step: an element appended by
  the body is visited too, and a body that keeps appending keeps the loop running for
  ever. \<open>view\<close> reads the list out of the current state; the loop stops at the first
  exception.
\<close>

partial_function (option) for_each ::
  "('w \<Rightarrow> 'c list) \<Rightarrow> (nat \<Rightarrow> 'c \<Rightarrow> 'w \<Rightarrow> (unit, 'w) outcome option) \<Rightarrow> nat \<Rightarrow> 'w
    \<Rightarrow> (unit, 'w) outcome option"
where
  "for_each view body i w =
     (if i < length (view w) then
        (case body i (view w ! i) w of
           None \<Rightarrow> None
         | Some (Raised e w') \<Rightarrow> Some (Raised e w')
         | Some (Returned u w') \<Rightarrow> for_each view body (Suc i) w')
      else Some (Returned () w))"

declare for_each.simps [code]

subsection \<open>Calling a handler\<close>

text \<open>
  The observer's two lists are out of a handler's reach: they are put back as they were
  when the handler comes back, so they record the calls made by the operation under
  study and not those a handler makes on its own by publishing in turn.
\<close>

definition restore ::
  "('p, 'x) world_scheme \<Rightarrow> ('a, ('p, 'x) world_scheme) outcome
    \<Rightarrow> ('a, ('p, 'x) world_scheme) outcome"
where
  "restore w out =
     (case out of
        Returned u w' \<Rightarrow> Returned u (w'\<lparr>delivered := delivered w, handled := handled w\<rparr>)
      | Raised e w' \<Rightarrow> Raised e (w'\<lparr>delivered := delivered w, handled := handled w\<rparr>))"

definition call ::
  "('p, 'x) handlers \<Rightarrow> nat \<Rightarrow> 'p MCPMessage \<Rightarrow> ('p, 'x) world_scheme
    \<Rightarrow> (unit, ('p, 'x) world_scheme) outcome option"
where
  "call env h message w = map_option (restore w) (env h message w)"

subsection \<open>\<^verbatim>\<open>BaseAgent\<close>: dispatch and registration\<close>

definition the_agent :: "('p, 'x) world_scheme \<Rightarrow> nat \<Rightarrow> BaseAgent option" where
  "the_agent w a = (if a < length (agents w) then Some (agents w ! a) else None)"

text \<open>The list \<^verbatim>\<open>self._callbacks[message_type]\<close> as it stands in the state.\<close>

definition handlers_for :: "('p, 'x) world_scheme \<Rightarrow> nat \<Rightarrow> string \<Rightarrow> nat list" where
  "handlers_for w a message_type =
     (case the_agent w a of
        None \<Rightarrow> []
      | Some self \<Rightarrow> (case callbacks self message_type of None \<Rightarrow> [] | Some hs \<Rightarrow> hs))"

text \<open>
  \<^verbatim>\<open>BaseAgent._handle_message\<close>. A bound method keeps its object alive, so the
  reference is valid whenever the method is called; the model answers a dangling one with
  an exception.
\<close>

definition handle_message ::
  "('p, 'x) handlers \<Rightarrow> nat \<Rightarrow> 'p MCPMessage \<Rightarrow> ('p, 'x) world_scheme
    \<Rightarrow> (unit, ('p, 'x) world_scheme) outcome option"
where
  "handle_message env a message w =
     (case the_agent w a of
        None \<Rightarrow> Some (Raised ''no such agent object'' w)
      | Some self \<Rightarrow>
          (let w1 = log (class_logger self) INFO
                      ''_handle_message called with message: {message}'' [Msg message] w;
               w2 = log_mcp_message (agent_id self) message ''received'' w1
           in case callbacks self (type message) of
                Some hs \<Rightarrow>
                  for_each (\<lambda>v. handlers_for v a (type message))
                    (\<lambda>i h v. call env h message (v\<lparr>handled := handled v @ [(a, h, message)]\<rparr>))
                    0 w2
              | None \<Rightarrow>
                  Some (Returned ()
                    (log (agent_id self) WARNING
                       ''No handler for message type: {message.type}'' [Str (type message)] w2))))"

text \<open>\<^verbatim>\<open>BaseAgent.register_handler\<close>.\<close>

definition register_handler ::
  "nat \<Rightarrow> string \<Rightarrow> nat \<Rightarrow> ('p, 'x) world_scheme \<Rightarrow> ('p, 'x) world_scheme"
where
  "register_handler a message_type h w =
     (case the_agent w a of
        None \<Rightarrow> w
      | Some self \<Rightarrow>
          (let w1 = log (class_logger self) INFO
                      ''register_handler called for message_type: {message_type}''
                      [Str message_type] w;
               hs = (case callbacks self message_type of None \<Rightarrow> [] | Some hs \<Rightarrow> hs)
           in w1\<lparr>agents :=
                   (agents w1)[a := self\<lparr>callbacks := (callbacks self)(message_type \<mapsto> hs @ [h])\<rparr>]\<rparr>))"

subsection \<open>\<^verbatim>\<open>MCPBroker\<close>\<close>

text \<open>The list \<^verbatim>\<open>self._subscribers[agent_id]\<close> as it stands in the state.\<close>

definition subscribers_of :: "('p, 'x) world_scheme \<Rightarrow> string \<Rightarrow> callback list" where
  "subscribers_of w r = (case subscribers w r of None \<Rightarrow> [] | Some cbs \<Rightarrow> cbs)"

text \<open>\<^verbatim>\<open>MCPBroker.subscribe\<close>.\<close>

definition subscribe ::
  "string \<Rightarrow> callback \<Rightarrow> ('p, 'x) world_scheme \<Rightarrow> ('p, 'x) world_scheme"
where
  "subscribe r callback w =
     (let w1 = log ''MCPBroker'' INFO ''Subscribing agent {agent_id} to MCP broker'' [Str r] w;
          w2 = (case subscribers w1 r of
                  None \<Rightarrow> w1\<lparr>subscribers := (subscribers w1)(r \<mapsto> [])\<rparr>
                | Some cbs \<Rightarrow> w1);
          w3 = w2\<lparr>subscribers := (subscribers w2)(r \<mapsto> subscribers_of w2 r @ [callback])\<rparr>
      in log ''MCPBroker'' INFO
           ''Agent {agent_id} subscribed. Total subscribers: {len(self._subscribers[agent_id])}''
           [Str r, Num (length (subscribers_of w3 r))] w3)"

text \<open>What \<^verbatim>\<open>callback(message)\<close> does, by the kind of callable.\<close>

definition invoke ::
  "('p, 'x) handlers \<Rightarrow> callback \<Rightarrow> 'p MCPMessage \<Rightarrow> ('p, 'x) world_scheme
    \<Rightarrow> (unit, ('p, 'x) world_scheme) outcome option"
where
  "invoke env callback message w =
     (case callback of
        Function h \<Rightarrow> call env h message w
      | HandleMessage a \<Rightarrow> handle_message env a message w)"

text \<open>\<^verbatim>\<open>MCPBroker.publish\<close>: log, append to the history, dispatch, return the trace id.\<close>

definition publish ::
  "('p, 'x) handlers \<Rightarrow> 'p MCPMessage \<Rightarrow> ('p, 'x) world_scheme
    \<Rightarrow> (string, ('p, 'x) world_scheme) outcome option"
where
  "publish env message w =
     (let w1 = log ''MCPBroker'' INFO
                 ''Publishing message to {message.receiver}: type={message.type}, trace_id={message.trace_id}''
                 [Str (receiver message), Str (type message), Str (trace_id message)] w;
          w2 = w1\<lparr>message_history := message_history w1 @ [message]\<rparr>
      in case subscribers w2 (receiver message) of
           Some cbs \<Rightarrow>
             (case for_each (\<lambda>v. subscribers_of v (receiver message))
                     (\<lambda>i callback v.
                        invoke env callback message
                          ((log ''MCPBroker'' INFO
                              ''Invoking callback {i+1} for agent {message.receiver}''
                              [Num (i + 1), Str (receiver message)] v)
                           \<lparr>delivered := delivered v @ [(callback, message)]\<rparr>))
                     0 w2 of
                None \<Rightarrow> None
              | Some (Raised e w3) \<Rightarrow> Some (Raised e w3)
              | Some (Returned u w3) \<Rightarrow>
                  Some (Returned (trace_id message)
                    (log ''MCPBroker'' INFO ''All callbacks for {message.receiver} invoked.''
                       [Str (receiver message)] w3)))
         | None \<Rightarrow>
             Some (Returned (trace_id message)
               (log ''MCPBroker'' WARNING ''No subscribers found for receiver {message.receiver}''
                  [Str (receiver message)] w2)))"

text \<open>
  \<^verbatim>\<open>MCPBroker.get_message_history\<close>. \<^verbatim>\<open>if trace_id:\<close> is Python's truth test:
  \<^verbatim>\<open>None\<close> and the empty string both fail it.
\<close>

fun truthy :: "string option \<Rightarrow> bool" where
  "truthy None = False"
| "truthy (Some s) = (s \<noteq> [])"

definition get_message_history ::
  "string option \<Rightarrow> ('p, 'x) world_scheme \<Rightarrow> 'p MCPMessage list"
where
  "get_message_history tid w =
     (case tid of
        Some s \<Rightarrow> (if truthy tid then filter (\<lambda>msg. trace_id msg = s) (message_history w)
                   else message_history w)
      | None \<Rightarrow> message_history w)"

subsection \<open>Creating and sending envelopes\<close>

text \<open>
  \<^verbatim>\<open>create_mcp_message\<close>. When the truth test on \<^verbatim>\<open>trace_id\<close> fails, the field's
  \<^verbatim>\<open>default_factory\<close> runs: \<open>fresh\<close> stands for the string that
  \<^verbatim>\<open>str(uuid.uuid4())\<close> yields at this call (it is an input of the model: the
  generator is the Python library's, not this repository's).
\<close>

definition create_mcp_message ::
  "string \<Rightarrow> string \<Rightarrow> string \<Rightarrow> string \<Rightarrow> 'p \<Rightarrow> string option \<Rightarrow> 'p MCPMessage"
where
  "create_mcp_message fresh sender' receiver' msg_type payload' tid =
     (case tid of
        Some s \<Rightarrow>
          (if truthy tid then
             \<lparr>sender = sender', receiver = receiver', type = msg_type, trace_id = s,
              payload = payload'\<rparr>
           else
             \<lparr>sender = sender', receiver = receiver', type = msg_type, trace_id = fresh,
              payload = payload'\<rparr>)
      | None \<Rightarrow>
          \<lparr>sender = sender', receiver = receiver', type = msg_type, trace_id = fresh,
           payload = payload'\<rparr>)"

text \<open>\<^verbatim>\<open>BaseAgent.send_message\<close>.\<close>

definition send_message ::
  "string \<Rightarrow> ('p, 'x) handlers \<Rightarrow> nat \<Rightarrow> string \<Rightarrow> string \<Rightarrow> 'p \<Rightarrow> string option
    \<Rightarrow> ('p, 'x) world_scheme \<Rightarrow> (string, ('p, 'x) world_scheme) outcome option"
where
  "send_message fresh env a receiver' msg_type payload' tid w =
     (case the_agent w a of
        None \<Rightarrow> Some (Raised ''no such agent object'' w)
      | Some self \<Rightarrow>
          (let w1 = log (class_logger self) INFO
                      ''send_message called: receiver={receiver}, msg_type={msg_type}, trace_id={trace_id}''
                      [Str receiver', Str msg_type, Opt tid] w;
               message = create_mcp_message fresh (agent_id self) receiver' msg_type payload' tid;
               w2 = log_mcp_message (agent_id self) message ''sent'' w1
           in publish env message w2))"

text \<open>
  \<^verbatim>\<open>BaseAgent.__init__\<close>: the new object gets the next reference, starts with an empty
  handler table and subscribes its \<^verbatim>\<open>_handle_message\<close> under its identity. \<open>cls\<close>
  is the name of the class-level logger.
\<close>

definition BaseAgent_init ::
  "string \<Rightarrow> string \<Rightarrow> ('p, 'x) world_scheme \<Rightarrow> nat \<times> ('p, 'x) world_scheme"
where
  "BaseAgent_init cls agent_id' w =
     (let w1 = log cls INFO ''BaseAgent.__init__ called with agent_id={agent_id}'' [Str agent_id'] w;
          a = length (agents w1);
          w2 = w1\<lparr>agents := agents w1 @
                  [\<lparr>agent_id = agent_id', class_logger = cls, callbacks = Map.empty\<rparr>]\<rparr>
      in (a, subscribe agent_id' (HandleMessage a) w2))"

text \<open>The state of a process that has just imported the modules.\<close>

definition initial :: "'p world" where
  "initial =
     \<lparr>subscribers = Map.empty, message_history = [], agents = [], logs = [],
      delivered = [], handled = []\<rparr>"

section \<open>Notions used to state the properties\<close>

subsection \<open>The two stages of \<^verbatim>\<open>publish\<close>\<close>

text \<open>
  The state in which the dispatch loop of \<^verbatim>\<open>publish\<close> starts (the call is logged and
  the envelope appended), and the body of that loop for the \<open>i\<close>-th callback.
\<close>

definition announced :: "'p MCPMessage \<Rightarrow> ('p, 'x) world_scheme \<Rightarrow> ('p, 'x) world_scheme" where
  "announced m w =
     (log ''MCPBroker'' INFO
        ''Publishing message to {message.receiver}: type={message.type}, trace_id={message.trace_id}''
        [Str (receiver m), Str (type m), Str (trace_id m)] w)
     \<lparr>message_history := message_history
        (log ''MCPBroker'' INFO
        ''Publishing message to {message.receiver}: type={message.type}, trace_id={message.trace_id}''
        [Str (receiver m), Str (type m), Str (trace_id m)] w) @ [m]\<rparr>"

definition deliver ::
  "('p, 'x) handlers \<Rightarrow> 'p MCPMessage \<Rightarrow> nat \<Rightarrow> callback \<Rightarrow> ('p, 'x) world_scheme
    \<Rightarrow> (unit, ('p, 'x) world_scheme) outcome option" where
  "deliver env m i cb v =
     invoke env cb m
       ((log ''MCPBroker'' INFO ''Invoking callback {i+1} for agent {message.receiver}''
           [Num (i + 1), Str (receiver m)] v)\<lparr>delivered := delivered v @ [(cb, m)]\<rparr>)"

subsection \<open>Who is called for an envelope\<close>




subsection \<open>What a handler can do to the bus\<close>

text \<open>
  A handler reaches the bus through its methods: it may publish and send (the history
  grows at its end), subscribe and construct agents (a subscriber list and the list of
  agent objects grow at their ends) and register handlers (a handler list grows at its
  end). \<open>extends w v\<close> says that \<open>v\<close> can come from \<open>w\<close> in this way. Nothing is ever
  removed: the classes have no method for it (the list that
  \<^verbatim>\<open>get_message_history\<close> hands out is taken to be read only).
\<close>

definition extends :: "('p, 'x) world_scheme \<Rightarrow> ('p, 'x) world_scheme \<Rightarrow> bool" where
  "extends w v \<longleftrightarrow>
     prefix (message_history w) (message_history v) \<and>
     (\<forall>r. prefix (subscribers_of w r) (subscribers_of v r)) \<and>
     length (agents w) \<le> length (agents v) \<and>
     (\<forall>a t. prefix (handlers_for w a t) (handlers_for v a t))"

subsection \<open>Reading the result of a call\<close>

text \<open>
  \<open>after f r\<close> reads \<open>f\<close> in the state a call has left, whether it returned or raised;
  \<open>listed r\<close> is the subscriber list of the identity \<open>r\<close>. \<open>publish_each\<close> is the script
  \<^verbatim>\<open>for m in ms: mcp_broker.publish(m)\<close>, with the state it ends in when every call
  returns.
\<close>

definition after :: "('w \<Rightarrow> 'b) \<Rightarrow> ('a, 'w) outcome option \<Rightarrow> 'b option" where
  "after f r = map_option f (map_option world_of r)"

definition listed :: "string \<Rightarrow> ('p, 'x) world_scheme \<Rightarrow> callback list" where
  "listed r w = subscribers_of w r"

fun publish_each ::
  "('p, 'x) handlers \<Rightarrow> 'p MCPMessage list \<Rightarrow> ('p, 'x) world_scheme \<Rightarrow> ('p, 'x) world_scheme option"
where
  "publish_each env [] w = Some w"
| "publish_each env (m # ms) w =
     (case publish env m w of
        Some (Returned t w') \<Rightarrow> publish_each env ms w'
      | Some (Raised e w') \<Rightarrow> None
      | None \<Rightarrow> None)"

section \<open>Example envelopes, handlers and states\<close>

text \<open>Payloads of the examples are small dictionaries from strings to numbers.\<close>

type_synonym payload = "(string \<times> nat) list"

definition ping :: "payload MCPMessage" where
  "ping = \<lparr>sender = ''A'', receiver = ''B'', type = ''PING'', trace_id = ''t-1'', payload = [(''n'', 1)]\<rparr>"

definition no_receiver :: "payload MCPMessage" where
  "no_receiver = \<lparr>sender = ''A'', receiver = ''Z'', type = ''PING'', trace_id = ''t-4'', payload = []\<rparr>"

definition other_type :: "payload MCPMessage" where
  "other_type = \<lparr>sender = ''A'', receiver = ''B'', type = ''PONG'', trace_id = ''t-9'', payload = []\<rparr>"



text \<open>A value as \<^verbatim>\<open>str(uuid.uuid4())\<close> yields them.\<close>

definition sample_uuid :: string where
  "sample_uuid = ''0f8fad5b-d9cb-469f-a165-70867728950e''"

text \<open>
  Handler tables: every handler returns at once; the handler named \<open>k\<close> raises and the
  others return; every handler subscribes the callable \<open>1\<close> as \<^verbatim>\<open>"B"\<close> once more, as
  long as \<^verbatim>\<open>"B"\<close> has fewer than three subscribers; every handler subscribes a further
  callable under the identity \<^verbatim>\<open>"C"\<close>.
\<close>

definition returning :: "(payload, unit) handlers" where
  "returning h m v = Some (Returned () v)"



definition subscribing :: "(payload, unit) handlers" where
  "subscribing h m v = Some (Returned () (subscribe ''C'' (Function 9) v))"

text \<open>
  The handler of the third end-to-end scenario, a method of the agent at reference \<open>1\<close>:
  \<^verbatim>\<open>def h(self, msg): self.send_message("C", "FWD", {}, trace_id=msg.trace_id)\<close>.
  Nobody subscribes as \<^verbatim>\<open>"C"\<close> in the scenario, so the handlers given to the inner call
  are never run.
\<close>

definition forwarding :: "(payload, unit) handlers" where
  "forwarding h m v =
     (case send_message sample_uuid returning 1 ''C'' ''FWD'' [] (Some (trace_id m)) v of
        None \<Rightarrow> None
      | Some (Returned t v') \<Rightarrow> Some (Returned () v')
      | Some (Raised e v') \<Rightarrow> Some (Raised e v'))"

text \<open>
  The handler
  \<^verbatim>\<open>def h(msg): if len(mcp_broker.get_message_history()) < 2: mcp_broker.publish(msg)\<close>.
  It calls \<^verbatim>\<open>publish\<close>, which calls it again: \<open>echo k\<close> is the handler with calls nested
  at most \<open>k\<close> deep (deeper, it does not come back); two levels are enough for it to stop
  by itself.
\<close>

primrec echo :: "nat \<Rightarrow> (payload, unit) handlers" where
  "echo 0 = (\<lambda>h m v. None)"
| "echo (Suc k) = (\<lambda>h m v.
     if length (message_history v) < 2 then
       (case publish (echo k) m v of
          None \<Rightarrow> None
        | Some (Returned t v') \<Rightarrow> Some (Returned () v')
        | Some (Raised e v') \<Rightarrow> Some (Raised e v'))
     else Some (Returned () v))"

text \<open>States reached from the initial one by subscribing and by constructing agents.\<close>

definition one_subscriber :: "payload world" where
  "one_subscriber = subscribe ''B'' (Function 1) initial"

definition two_subscribers :: "payload world" where
  "two_subscribers = subscribe ''B'' (Function 2) (subscribe ''B'' (Function 1) initial)"




definition agent_b_one :: "payload world" where
  "agent_b_one = register_handler 0 ''PING'' 1 (snd (BaseAgent_init ''BaseAgent'' ''B'' initial))"

definition agent_b :: "payload world" where
  "agent_b =
     register_handler 0 ''PING'' 2
       (register_handler 0 ''PING'' 1 (snd (BaseAgent_init ''BaseAgent'' ''B'' initial)))"

text \<open>
  The agents \<^verbatim>\<open>"A"\<close> (reference \<open>0\<close>) and \<^verbatim>\<open>"B"\<close> (reference \<open>1\<close>), the latter with
  the handler \<open>1\<close> for the type \<^verbatim>\<open>"REQ"\<close>.
\<close>

definition agents_a_b :: "payload world" where
  "agents_a_b =
     register_handler 1 ''REQ'' 1
       (snd (BaseAgent_init ''BaseAgent'' ''B'' (snd (BaseAgent_init ''BaseAgent'' ''A'' initial))))"

text \<open>The state after four envelopes have been published to a bus without subscribers.\<close>

definition traced :: "payload world option" where
  "traced = publish_each returning [ping, no_receiver, other_type, ping] initial"

section \<open>Lemmas\<close>

subsection \<open>The loop\<close>


lemma for_each_done: "length (view w) \<le> i \<Longrightarrow> for_each view body i w = Some (Returned () w)"
  by (subst for_each.simps) simp


lemma for_each_invariant:
  assumes run: "for_each view body i w = Some out"
    and P: "P w"
    and body: "\<And>j c v out'. P v \<Longrightarrow> body j c v = Some out' \<Longrightarrow> P (world_of out')"
  shows "P (world_of out)"
proof -
  define Q where "Q = (\<lambda>(vw :: 'a \<Rightarrow> 'b list) bd (k :: nat) v (r :: (unit, 'a) outcome).
      bd = body \<longrightarrow> P v \<longrightarrow> P (world_of r))"
  have "Q view body i w out"
  proof (rule for_each.raw_induct [where P = Q, OF _ run])
    fix f vw bd k v r
    assume IH: "\<And>vw' bd' k' v' r'. f vw' bd' k' v' = Some r' \<Longrightarrow> Q vw' bd' k' v' r'"
      and eq: "(if k < length (vw v)
          then case bd k (vw v ! k) v of None \<Rightarrow> None
               | Some (Returned u w') \<Rightarrow> f vw bd (Suc k) w'
               | Some (Raised e w') \<Rightarrow> Some (Raised e w')
          else Some (Returned () v)) = Some r"
    show "Q vw bd k v r"
      unfolding Q_def
    proof (intro impI)
      assume bd: "bd = body" and Pv: "P v"
      show "P (world_of r)"
      proof (cases "k < length (vw v)")
        case False
        with eq Pv show ?thesis by auto
      next
        case True
        show ?thesis
        proof (cases "bd k (vw v ! k) v")
          case None
          with True eq show ?thesis by simp
        next
          case (Some r1)
          from body [OF Pv] Some bd have Pr: "P (world_of r1)" by blast
          show ?thesis
          proof (cases r1)
            case (Returned u w')
            with True Some eq have "f vw bd (Suc k) w' = Some r" by simp
            from IH [OF this] bd Pr Returned show ?thesis by (simp add: Q_def)
          next
            case (Raised e w')
            with True Some eq Pr show ?thesis by auto
          qed
        qed
      qed
    qed
  qed
  with P show ?thesis by (simp add: Q_def)
qed

subsection \<open>Fields under logging, and what the views depend on\<close>

lemma log_fields [simp]:
  "subscribers (log n l t a w) = subscribers w"
  "message_history (log n l t a w) = message_history w"
  "agents (log n l t a w) = agents w"
  "delivered (log n l t a w) = delivered w"
  "handled (log n l t a w) = handled w"
  "logs (log n l t a w) = logs w @ [(n, l, t, a)]"
  by (simp_all add: log_def)

lemma log_mcp_message_fields [simp]:
  "subscribers (log_mcp_message n msg d w) = subscribers w"
  "message_history (log_mcp_message n msg d w) = message_history w"
  "agents (log_mcp_message n msg d w) = agents w"
  "delivered (log_mcp_message n msg d w) = delivered w"
  "handled (log_mcp_message n msg d w) = handled w"
  by (simp_all add: log_mcp_message_def)

lemma the_agent_cong: "agents v = agents w \<Longrightarrow> the_agent v a = the_agent w a"
  by (simp add: the_agent_def)



lemma world_of_restore [simp]:
  "world_of (restore v out) = (world_of out)\<lparr>delivered := delivered v, handled := handled v\<rparr>"
  by (cases out) (simp_all add: restore_def)

lemma restore_Returned [simp]:
  "restore v (Returned u w) = Returned u (w\<lparr>delivered := delivered v, handled := handled v\<rparr>)"
  by (simp add: restore_def)

lemma restore_Raised [simp]:
  "restore v (Raised e w) = Raised e (w\<lparr>delivered := delivered v, handled := handled v\<rparr>)"
  by (simp add: restore_def)

subsection \<open>A frame rule\<close>

text \<open>
  A property of the state that does not depend on the log and on the observer's lists and
  that every handler preserves (for the envelope at hand) is preserved by a call of a
  handler, by an agent's dispatch, by a callback and, if it holds once the envelope has
  been appended, by \<^verbatim>\<open>publish\<close>, however the call ends.
\<close>

lemma call_frame:
  assumes run: "call env h m v = Some out"
    and P: "P v"
    and env: "\<And>h v out. P v \<Longrightarrow> env h m v = Some out \<Longrightarrow> P (world_of out)"
    and blind: "\<And>v ds hs. P (v\<lparr>delivered := ds, handled := hs\<rparr>) = P v"
  shows "P (world_of out)"
proof -
  from run obtain out0 where o: "env h m v = Some out0" "out = restore v out0"
    by (auto simp: call_def)
  from env [OF P o(1)] have "P (world_of out0)" .
  with o(2) blind show ?thesis by simp
qed

lemma handle_message_dangling:
  "the_agent v a = None \<Longrightarrow> handle_message env a m v = Some (Raised ''no such agent object'' v)"
  by (simp add: handle_message_def)

lemma handle_message_absent:
  "the_agent v a = Some self \<Longrightarrow> callbacks self (type m) = None \<Longrightarrow>
   handle_message env a m v =
     Some (Returned ()
       (log (agent_id self) WARNING ''No handler for message type: {message.type}'' [Str (type m)]
         (log_mcp_message (agent_id self) m ''received''
           (log (class_logger self) INFO ''_handle_message called with message: {message}''
              [Msg m] v))))"
  by (simp add: handle_message_def)

lemma handle_message_present:
  "the_agent v a = Some self \<Longrightarrow> callbacks self (type m) = Some hs \<Longrightarrow>
   handle_message env a m v =
     for_each (\<lambda>v. handlers_for v a (type m))
       (\<lambda>i h v. call env h m (v\<lparr>handled := handled v @ [(a, h, m)]\<rparr>)) 0
       (log_mcp_message (agent_id self) m ''received''
          (log (class_logger self) INFO ''_handle_message called with message: {message}''
             [Msg m] v))"
  by (simp add: handle_message_def)

lemma blind_log_holds:
  assumes "\<And>v l. P (v\<lparr>logs := l\<rparr>) = P v"
  shows "P (log n l t a v) = P v" and "P (log_mcp_message n msg d v) = P v"
  using assms by (simp_all add: log_def log_mcp_message_def)

lemma handle_message_frame:
  assumes run: "handle_message env a m v = Some out"
    and P: "P v"
    and env: "\<And>h v out. P v \<Longrightarrow> env h m v = Some out \<Longrightarrow> P (world_of out)"
    and blind: "\<And>v ds hs. P (v\<lparr>delivered := ds, handled := hs\<rparr>) = P v"
    and blind_hd: "\<And>v hs. P (v\<lparr>handled := hs\<rparr>) = P v"
    and blind_log: "\<And>v l. P (v\<lparr>logs := l\<rparr>) = P v"
  shows "P (world_of out)"
proof (cases "the_agent v a")
  case None
  from run P show ?thesis by (auto simp: handle_message_dangling [OF None])
next
  case (Some self)
  note ag = Some
  show ?thesis
  proof (cases "callbacks self (type m)")
    case None
    from run P show ?thesis
      by (auto simp: handle_message_absent [OF ag None] blind_log_holds [of P, OF blind_log])
  next
    case (Some hs)
    from run have loop: "for_each (\<lambda>v. handlers_for v a (type m))
        (\<lambda>i h v. call env h m (v\<lparr>handled := handled v @ [(a, h, m)]\<rparr>)) 0
        (log_mcp_message (agent_id self) m ''received''
          (log (class_logger self) INFO ''_handle_message called with message: {message}''
             [Msg m] v)) = Some out"
      by (simp add: handle_message_present [OF ag Some])
    have P2: "P (log_mcp_message (agent_id self) m ''received''
          (log (class_logger self) INFO ''_handle_message called with message: {message}''
             [Msg m] v))"
      using P by (simp add: blind_log_holds [of P, OF blind_log])
    show ?thesis
    proof (rule for_each_invariant [where P = P, OF loop P2])
      fix j c u out'
      assume "P u" and c: "call env c m (u\<lparr>handled := handled u @ [(a, c, m)]\<rparr>) = Some out'"
      from \<open>P u\<close> blind_hd have Pu: "P (u\<lparr>handled := handled u @ [(a, c, m)]\<rparr>)" by simp
      show "P (world_of out')"
      proof (rule call_frame [of env c m _ out' P, OF c Pu])
        show "\<And>h v out. P v \<Longrightarrow> env h m v = Some out \<Longrightarrow> P (world_of out)" by (rule env)
        show "\<And>v ds hs. P (v\<lparr>delivered := ds, handled := hs\<rparr>) = P v" by (rule blind)
      qed
    qed
  qed
qed

lemma invoke_frame:
  assumes run: "invoke env cb m v = Some out"
    and P: "P v"
    and env: "\<And>h v out. P v \<Longrightarrow> env h m v = Some out \<Longrightarrow> P (world_of out)"
    and blind: "\<And>v ds hs. P (v\<lparr>delivered := ds, handled := hs\<rparr>) = P v"
    and blind_hd: "\<And>v hs. P (v\<lparr>handled := hs\<rparr>) = P v"
    and blind_log: "\<And>v l. P (v\<lparr>logs := l\<rparr>) = P v"
  shows "P (world_of out)"
proof (cases cb)
  case (Function h)
  with run have c: "call env h m v = Some out" by (simp add: invoke_def)
  show ?thesis
  proof (rule call_frame [of env h m v out P, OF c P])
    show "\<And>h v out. P v \<Longrightarrow> env h m v = Some out \<Longrightarrow> P (world_of out)" by (rule env)
    show "\<And>v ds hs. P (v\<lparr>delivered := ds, handled := hs\<rparr>) = P v" by (rule blind)
  qed
next
  case (HandleMessage a)
  with run have c: "handle_message env a m v = Some out" by (simp add: invoke_def)
  show ?thesis
  proof (rule handle_message_frame [of env a m v out P, OF c P])
    show "\<And>h v out. P v \<Longrightarrow> env h m v = Some out \<Longrightarrow> P (world_of out)" by (rule env)
    show "\<And>v ds hs. P (v\<lparr>delivered := ds, handled := hs\<rparr>) = P v" by (rule blind)
    show "\<And>v hs. P (v\<lparr>handled := hs\<rparr>) = P v" by (rule blind_hd)
    show "\<And>v l. P (v\<lparr>logs := l\<rparr>) = P v" by (rule blind_log)
  qed
qed

lemma announced_fields [simp]:
  "subscribers (announced m w) = subscribers w"
  "message_history (announced m w) = message_history w @ [m]"
  "agents (announced m w) = agents w"
  "delivered (announced m w) = delivered w"
  "handled (announced m w) = handled w"
  by (simp_all add: announced_def)

lemma publish_unfold:
  "publish env m w =
     (case subscribers w (receiver m) of
        Some cbs \<Rightarrow>
          (case for_each (\<lambda>v. subscribers_of v (receiver m)) (deliver env m) 0 (announced m w) of
             None \<Rightarrow> None
           | Some (Raised e w3) \<Rightarrow> Some (Raised e w3)
           | Some (Returned u w3) \<Rightarrow>
               Some (Returned (trace_id m)
                 (log ''MCPBroker'' INFO ''All callbacks for {message.receiver} invoked.''
                    [Str (receiver m)] w3)))
      | None \<Rightarrow>
          Some (Returned (trace_id m)
            (log ''MCPBroker'' WARNING ''No subscribers found for receiver {message.receiver}''
               [Str (receiver m)] (announced m w))))"
  unfolding publish_def Let_def announced_def deliver_def [abs_def]
  by simp

lemma announced_alt:
  "announced m w =
     (w\<lparr>message_history := message_history w @ [m]\<rparr>)
     \<lparr>logs := logs w @ [(''MCPBroker'', INFO,
        ''Publishing message to {message.receiver}: type={message.type}, trace_id={message.trace_id}'',
        [Str (receiver m), Str (type m), Str (trace_id m)])]\<rparr>"
  by (simp add: announced_def log_def)

lemma publish_frame:
  assumes run: "publish env m w = Some out"
    and P: "P (announced m w)"
    and env: "\<And>h v out. P v \<Longrightarrow> env h m v = Some out \<Longrightarrow> P (world_of out)"
    and blind: "\<And>v ds hs. P (v\<lparr>delivered := ds, handled := hs\<rparr>) = P v"
    and blind_hd: "\<And>v hs. P (v\<lparr>handled := hs\<rparr>) = P v"
    and blind_dl: "\<And>v ds. P (v\<lparr>delivered := ds\<rparr>) = P v"
    and blind_log: "\<And>v l. P (v\<lparr>logs := l\<rparr>) = P v"
  shows "P (world_of out)"
proof (cases "subscribers w (receiver m)")
  case None
  from run have "out = Returned (trace_id m)
      (log ''MCPBroker'' WARNING ''No subscribers found for receiver {message.receiver}''
         [Str (receiver m)] (announced m w))"
    by (simp add: publish_unfold None)
  with P show ?thesis by (simp add: blind_log_holds [of P, OF blind_log])
next
  case (Some cbs)
  from run obtain r where r: "for_each (\<lambda>v. subscribers_of v (receiver m)) (deliver env m) 0
      (announced m w) = Some r"
    by (cases "for_each (\<lambda>v. subscribers_of v (receiver m)) (deliver env m) 0 (announced m w)")
       (simp_all add: publish_unfold Some)
  have Pr: "P (world_of r)"
  proof (rule for_each_invariant [where P = P, OF r P])
    fix j c u out'
    assume Pu: "P u" and c: "deliver env m j c u = Some out'"
    from Pu have Pu': "P ((log ''MCPBroker'' INFO
        ''Invoking callback {i+1} for agent {message.receiver}''
        [Num (j + 1), Str (receiver m)] u)\<lparr>delivered := delivered u @ [(c, m)]\<rparr>)"
      by (simp add: blind_dl blind_log_holds [of P, OF blind_log])
    from c have c': "invoke env c m ((log ''MCPBroker'' INFO
        ''Invoking callback {i+1} for agent {message.receiver}''
        [Num (j + 1), Str (receiver m)] u)\<lparr>delivered := delivered u @ [(c, m)]\<rparr>) = Some out'"
      by (simp add: deliver_def)
    show "P (world_of out')"
    proof (rule invoke_frame [of env c m _ out' P, OF c' Pu'])
      show "\<And>h v out. P v \<Longrightarrow> env h m v = Some out \<Longrightarrow> P (world_of out)" by (rule env)
      show "\<And>v ds hs. P (v\<lparr>delivered := ds, handled := hs\<rparr>) = P v" by (rule blind)
      show "\<And>v hs. P (v\<lparr>handled := hs\<rparr>) = P v" by (rule blind_hd)
      show "\<And>v l. P (v\<lparr>logs := l\<rparr>) = P v" by (rule blind_log)
    qed
  qed
  show ?thesis
  proof (cases r)
    case (Returned u w3)
    from run have "out = Returned (trace_id m)
        (log ''MCPBroker'' INFO ''All callbacks for {message.receiver} invoked.''
           [Str (receiver m)] w3)"
      by (simp add: publish_unfold Some r Returned)
    with Pr Returned show ?thesis by (simp add: blind_log_holds [of P, OF blind_log])
  next
    case (Raised e w3)
    from run have "out = Raised e w3"
      by (simp add: publish_unfold Some r Raised)
    with Pr Raised show ?thesis by simp
  qed
qed

subsection \<open>Dispatch to handlers that return and register nothing\<close>








subsection \<open>Dispatch up to a handler that raises\<close>

lemma extends_refl [simp]: "extends w w"
  by (simp add: extends_def)

lemma extends_trans: "extends u v \<Longrightarrow> extends v w \<Longrightarrow> extends u w"
  unfolding extends_def by (meson order_trans prefix_order.order_trans)

lemma extends_same:
  "message_history v' = message_history v \<Longrightarrow> subscribers v' = subscribers v \<Longrightarrow>
   agents v' = agents v \<Longrightarrow> extends w v' = extends w v"
  by (simp add: extends_def subscribers_of_def handlers_for_def the_agent_def)

lemma extends_same_left:
  "message_history v' = message_history v \<Longrightarrow> subscribers v' = subscribers v \<Longrightarrow>
   agents v' = agents v \<Longrightarrow> extends v' w = extends v w"
  by (simp add: extends_def subscribers_of_def handlers_for_def the_agent_def)






subsection \<open>Subscribing, publishing without subscribers, creating\<close>

lemma subscribe_fields:
  "subscribers (subscribe r cb w) = (subscribers w)(r \<mapsto> subscribers_of w r @ [cb])"
  "message_history (subscribe r cb w) = message_history w"
  "agents (subscribe r cb w) = agents w"
  "delivered (subscribe r cb w) = delivered w"
  "handled (subscribe r cb w) = handled w"
  by (simp_all add: subscribe_def Let_def subscribers_of_def split: option.splits)

lemma subscribers_of_subscribe:
  "subscribers_of (subscribe r cb w) r' =
     (if r' = r then subscribers_of w r @ [cb] else subscribers_of w r')"
  by (simp add: subscribers_of_def subscribe_fields)

lemma extends_restored [simp]: "extends v (v\<lparr>delivered := ds, handled := hs\<rparr>)"
  by (simp add: extends_def subscribers_of_def handlers_for_def the_agent_def)

lemma publish_unsubscribed:
  assumes "subscribers_of w (receiver m) = []"
  shows "\<exists>w'. publish env m w = Some (Returned (trace_id m) w') \<and>
      message_history w' = message_history w @ [m] \<and>
      delivered w' = delivered w \<and> handled w' = handled w \<and>
      subscribers w' = subscribers w \<and> agents w' = agents w"
proof (cases "subscribers w (receiver m)")
  case None
  then show ?thesis by (simp add: publish_unfold)
next
  case (Some cbs)
  with assms have "subscribers_of (announced m w) (receiver m) = []"
    by (simp add: subscribers_of_def)
  then have "for_each (\<lambda>v. subscribers_of v (receiver m)) (deliver env m) 0 (announced m w)
      = Some (Returned () (announced m w))"
    by (intro for_each_done) simp
  with Some show ?thesis by (simp add: publish_unfold)
qed
lemma create_mcp_message_eq:
  "create_mcp_message fresh s r t p tid =
     \<lparr>sender = s, receiver = r, type = t,
      trace_id = (case tid of None \<Rightarrow> fresh | Some c \<Rightarrow> if c = [] then fresh else c),
      payload = p\<rparr>"
  by (simp add: create_mcp_message_def split: option.splits)

lemma create_mcp_message_fields [simp]:
  "sender (create_mcp_message fresh s r t p tid) = s"
  "receiver (create_mcp_message fresh s r t p tid) = r"
  "type (create_mcp_message fresh s r t p tid) = t"
  "payload (create_mcp_message fresh s r t p tid) = p"
  by (simp_all add: create_mcp_message_eq)


subsection \<open>The example handlers\<close>

lemma echo_appends:
  "echo k h m v = Some out \<Longrightarrow> prefix (message_history v) (message_history (world_of out))"
proof (induction k arbitrary: h m v out)
  case 0
  then show ?case by simp
next
  case (Suc k)
  show ?case
  proof (cases "length (message_history v) < 2")
    case False
    with Suc.prems show ?thesis by auto
  next
    case True
    with Suc.prems obtain out0 where p: "publish (echo k) m v = Some out0"
        and w: "world_of out = world_of out0"
      by (auto split: option.splits outcome.splits)
    have "prefix (message_history v) (message_history (world_of out0))"
    proof (rule publish_frame [where P = "\<lambda>u. prefix (message_history v) (message_history u)", OF p])
      fix h' u out'
      assume "prefix (message_history v) (message_history u)" and "echo k h' m u = Some out'"
      with Suc.IH [of h' m u out']
      show "prefix (message_history v) (message_history (world_of out'))"
        using prefix_order.order_trans by blast
    qed simp_all
    with w show ?thesis by simp
  qed
qed


subsection \<open>The methods of the bus only extend the state\<close>

lemma subscribe_extends: "extends w (subscribe r cb w)"
  by (simp add: extends_def subscribers_of_subscribe subscribe_fields handlers_for_def the_agent_def)

lemma register_handler_fields:
  "subscribers (register_handler a t h w) = subscribers w"
  "message_history (register_handler a t h w) = message_history w"
  "length (agents (register_handler a t h w)) = length (agents w)"
  by (simp_all add: register_handler_def Let_def split: option.splits)

lemma handlers_for_register_handler:
  "handlers_for (register_handler a t h w) a' t' =
     (if a' = a \<and> t' = t \<and> a < length (agents w) then handlers_for w a t @ [h]
      else handlers_for w a' t')"
  by (auto simp: register_handler_def handlers_for_def the_agent_def Let_def nth_list_update
      split: option.splits)

lemma register_handler_extends: "extends w (register_handler a t h w)"
  by (simp add: extends_def handlers_for_register_handler register_handler_fields subscribers_of_def)

lemma publish_extends:
  assumes run: "publish env m w = Some out"
    and env: "\<forall>h v out'. env h m v = Some out' \<longrightarrow> extends v (world_of out')"
  shows "extends w (world_of out)"
proof (rule publish_frame [where P = "extends w", OF run])
  show "extends w (announced m w)"
    by (simp add: extends_def subscribers_of_def handlers_for_def the_agent_def)
next
  fix h v out'
  assume "extends w v" and "env h m v = Some out'"
  with env show "extends w (world_of out')" using extends_trans by blast
next
  show "extends w (v\<lparr>delivered := ds, handled := hs\<rparr>) = extends w v" for v ds hs
    by (rule extends_same) simp_all
  show "extends w (v\<lparr>handled := hs\<rparr>) = extends w v" for v hs
    by (rule extends_same) simp_all
  show "extends w (v\<lparr>delivered := ds\<rparr>) = extends w v" for v ds
    by (rule extends_same) simp_all
  show "extends w (v\<lparr>logs := l\<rparr>) = extends w v" for v l
    by (rule extends_same) simp_all
qed

lemma BaseAgent_init_extends: "extends w (snd (BaseAgent_init cls r w))"
proof -
  let ?w2 = "(log cls INFO ''BaseAgent.__init__ called with agent_id={agent_id}'' [Str r] w)
      \<lparr>agents := agents w @ [\<lparr>agent_id = r, class_logger = cls, callbacks = Map.empty\<rparr>]\<rparr>"
  have "extends w ?w2"
    by (auto simp: extends_def subscribers_of_def handlers_for_def the_agent_def nth_append)
  moreover have "extends ?w2 (subscribe r (HandleMessage (length (agents w))) ?w2)"
    by (rule subscribe_extends)
  ultimately show ?thesis
    by (simp add: BaseAgent_init_def Let_def) (rule extends_trans)
qed

lemma send_message_extends:
  assumes run: "send_message fresh env a r t p tid w = Some out"
    and env: "\<forall>m h v out'. env h m v = Some out' \<longrightarrow> extends v (world_of out')"
  shows "extends w (world_of out)"
proof (cases "the_agent w a")
  case None
  with run show ?thesis by (auto simp: send_message_def)
next
  case (Some self)
  let ?m = "create_mcp_message fresh (agent_id self) r t p tid"
  let ?w2 = "log_mcp_message (agent_id self) ?m ''sent''
      (log (class_logger self) INFO
         ''send_message called: receiver={receiver}, msg_type={msg_type}, trace_id={trace_id}''
         [Str r, Str t, Opt tid] w)"
  from run Some have "publish env ?m ?w2 = Some out"
    by (simp add: send_message_def Let_def)
  from publish_extends [OF this] env have "extends ?w2 (world_of out)" by blast
  moreover have "extends ?w2 (world_of out) = extends w (world_of out)"
    by (rule extends_same_left) simp_all
  ultimately show ?thesis by simp
qed

text \<open>
  Publishing a list of envelopes in turn, with handlers that leave the history alone,
  records exactly these envelopes, in this order.
\<close>

lemma publish_each_history:
  assumes "publish_each env ms w = Some w'"
    and "\<forall>m h v out. env h m v = Some out \<longrightarrow> message_history (world_of out) = message_history v"
  shows "message_history w' = message_history w @ ms"
  using assms(1)
proof (induction ms arbitrary: w)
  case Nil
  then show ?case by simp
next
  case (Cons m ms)
  from Cons.prems obtain t w1 where p: "publish env m w = Some (Returned t w1)"
      and rest: "publish_each env ms w1 = Some w'"
    by (auto split: option.splits outcome.splits)
  have "message_history (world_of (Returned t w1)) = message_history w @ [m]"
  proof (rule publish_frame [where P = "\<lambda>v. message_history v = message_history w @ [m]", OF p])
    fix h v out'
    assume "message_history v = message_history w @ [m]" and "env h m v = Some out'"
    with assms(2) show "message_history (world_of out') = message_history w @ [m]" by simp
  qed simp_all
  with Cons.IH [OF rest] show ?case by simp
qed

section \<open>The end-to-end scenarios of the specification\<close>

text \<open>
  An agent \<^verbatim>\<open>"B"\<close> with one handler for \<^verbatim>\<open>"PING"\<close>: the handler is called once, with
  the payload published, and the history has one entry.
\<close>

lemma scenario_1:
  "after handled (publish returning ping agent_b_one) = Some [(0, 1, ping)] \<and>
   payload ping = [(''n'', 1)] \<and>
   after message_history (publish returning ping agent_b_one) = Some [ping]"
  by code_simp

text \<open>Two handlers for one type: each is called once, in the order registered.\<close>

lemma scenario_2:
  "after handled (publish returning ping agent_b) = Some [(0, 1, ping), (0, 2, ping)]"
  by code_simp

text \<open>
  \<^verbatim>\<open>"A"\<close> sends to \<^verbatim>\<open>"B"\<close>, whose handler sends on to \<^verbatim>\<open>"C"\<close> under the same trace
  id: the history holds the two envelopes in the order sent, and so does the history
  for that trace id.
\<close>

lemma scenario_3:
  "after message_history (send_message sample_uuid forwarding 0 ''B'' ''REQ'' [] None agents_a_b)
     = Some [\<lparr>sender = ''A'', receiver = ''B'', type = ''REQ'', trace_id = sample_uuid, payload = []\<rparr>,
             \<lparr>sender = ''B'', receiver = ''C'', type = ''FWD'', trace_id = sample_uuid, payload = []\<rparr>] \<and>
   after (get_message_history (Some sample_uuid))
       (send_message sample_uuid forwarding 0 ''B'' ''REQ'' [] None agents_a_b)
     = Some [\<lparr>sender = ''A'', receiver = ''B'', type = ''REQ'', trace_id = sample_uuid, payload = []\<rparr>,
             \<lparr>sender = ''B'', receiver = ''C'', type = ''FWD'', trace_id = sample_uuid, payload = []\<rparr>]"
  by code_simp

text \<open>
  Publishing to \<^verbatim>\<open>"Z"\<close>, for which nobody has subscribed: the call returns the trace id,
  and the state has one history entry and two log entries more.
\<close>

lemma scenario_4:
  "publish returning no_receiver one_subscriber
     = Some (Returned ''t-4''
         (one_subscriber
            \<lparr>message_history := [no_receiver],
             logs := logs one_subscriber @
               [(''MCPBroker'', INFO,
                 ''Publishing message to {message.receiver}: type={message.type}, trace_id={message.trace_id}'',
                 [Str ''Z'', Str ''PING'', Str ''t-4'']),
                (''MCPBroker'', WARNING, ''No subscribers found for receiver {message.receiver}'',
                 [Str ''Z''])]\<rparr>))"
  by (simp add: publish_unfold one_subscriber_def subscribe_fields initial_def no_receiver_def
      announced_alt log_def)

section \<open>The properties of the bus\<close>

subsection \<open>Delivery\<close>









text \<open>
  C4. Publishing an envelope whose receiver has no subscriber raises nothing, calls no
  callback and no handler, appends the envelope to the history, which grows by exactly one
  entry, and returns the envelope's trace id; the subscriber table and the agents are as
  before.
\<close>

theorem publish_without_subscribers:
  assumes "subscribers_of w (receiver m) = []"
  shows "\<exists>w'. publish env m w = Some (Returned (trace_id m) w') \<and>
      message_history w' = message_history w @ [m] \<and>
      length (message_history w') = Suc (length (message_history w)) \<and>
      delivered w' = delivered w \<and> handled w' = handled w \<and>
      subscribers w' = subscribers w \<and> agents w' = agents w"
proof -
  from publish_unsubscribed [OF assms, of env] show ?thesis by auto
qed

text \<open>The fourth end-to-end scenario: nobody has subscribed as \<^verbatim>\<open>"Z"\<close>.\<close>

theorem publish_without_subscribers_witness:
  "subscribers_of (initial :: payload world) (receiver no_receiver) = [] \<and>
   (\<exists>w'. publish returning no_receiver initial = Some (Returned ''t-4'' w') \<and>
      message_history w' = [no_receiver] \<and> delivered w' = [] \<and> handled w' = [])"
proof -
  have h: "subscribers_of (initial :: payload world) (receiver no_receiver) = []"
    by (simp add: subscribers_of_def initial_def)
  from publish_without_subscribers [OF h, of returning] h show ?thesis
    by (auto simp: initial_def no_receiver_def)
qed

text \<open>
  C9. When the handler table of the agent has no entry for the type of the envelope,
  \<^verbatim>\<open>_handle_message\<close> returns normally and the state it leaves differs from the one it
  found in the log only: after the two entries that every dispatch writes first comes the
  warning. So no handler is called, nothing is published, nothing is raised and the
  handler table is unchanged.
\<close>

theorem handle_message_without_handler:
  assumes "the_agent w a = Some self" and "callbacks self (type m) = None"
  shows "handle_message env a m w =
      Some (Returned ()
        (w\<lparr>logs := logs w @
           [(class_logger self, INFO, ''_handle_message called with message: {message}'', [Msg m]),
            (agent_id self, INFO, ''MCP message {direction}'',
               [Str ''received'', Str (sender m), Str (receiver m), Str (type m), Str (trace_id m)]),
            (agent_id self, WARNING, ''No handler for message type: {message.type}'',
               [Str (type m)])]\<rparr>))"
  by (simp add: handle_message_absent [OF assms] log_def log_mcp_message_def)

text \<open>The agent \<^verbatim>\<open>"B"\<close> has handlers for \<^verbatim>\<open>"PING"\<close> and receives a \<^verbatim>\<open>"PONG"\<close>.\<close>

theorem handle_message_without_handler_witness:
  "the_agent agent_b 0 = Some (agents agent_b ! 0) \<and>
   callbacks (agents agent_b ! 0) (type other_type) = None \<and>
   after handled (handle_message returning 0 other_type agent_b) = Some [] \<and>
   after message_history (handle_message returning 0 other_type agent_b) = Some [] \<and>
   after agents (handle_message returning 0 other_type agent_b) = Some (agents agent_b)"
proof -
  have "0 < length (agents agent_b)" by code_simp
  then have a: "the_agent agent_b 0 = Some (agents agent_b ! 0)"
    by (simp add: the_agent_def)
  have b: "callbacks (agents agent_b ! 0) (type other_type) = None"
    by code_simp
  have c: "handled agent_b = []" "message_history agent_b = []"
    by code_simp+
  from handle_message_without_handler [OF a b, of returning] a b c show ?thesis
    by (simp add: after_def)
qed

subsection \<open>The history\<close>

text \<open>
  C2 (as amended). When a call of \<^verbatim>\<open>publish\<close> with the envelope \<open>m\<close> comes back, by
  return or by exception, the history is the history from before the call, then \<open>m\<close>, then
  the entries \<open>rest\<close> that the handlers run by the call have added; \<open>rest\<close> is empty when
  the handlers leave the history alone. Handlers are taken to reach the history by
  publishing only, so that they add at its end. Whether a subscriber exists plays no role.
\<close>

theorem publish_appends_to_history:
  assumes "publish env m w = Some out"
    and "\<forall>h v out'. env h m v = Some out' \<longrightarrow>
      prefix (message_history v) (message_history (world_of out'))"
  shows "\<exists>rest. message_history (world_of out) = message_history w @ m # rest \<and>
      ((\<forall>h v out'. env h m v = Some out' \<longrightarrow> message_history (world_of out') = message_history v)
        \<longrightarrow> rest = [])"
proof -
  have "prefix (message_history w @ [m]) (message_history (world_of out))"
  proof (rule publish_frame [where P = "\<lambda>v. prefix (message_history w @ [m]) (message_history v)",
        OF assms(1)])
    fix h v out'
    assume "prefix (message_history w @ [m]) (message_history v)" and "env h m v = Some out'"
    with assms(2) show "prefix (message_history w @ [m]) (message_history (world_of out'))"
      using prefix_order.order_trans by blast
  qed simp_all
  then obtain rest where rest: "message_history (world_of out) = message_history w @ m # rest"
    by (auto simp: prefix_def)
  have "rest = []"
    if same: "\<forall>h v out'. env h m v = Some out' \<longrightarrow> message_history (world_of out') = message_history v"
  proof -
    have "message_history (world_of out) = message_history w @ [m]"
    proof (rule publish_frame [where P = "\<lambda>v. message_history v = message_history w @ [m]",
          OF assms(1)])
      fix h v out'
      assume "message_history v = message_history w @ [m]" and "env h m v = Some out'"
      with same show "message_history (world_of out') = message_history w @ [m]" by simp
    qed simp_all
    with rest show ?thesis by simp
  qed
  with rest show ?thesis by blast
qed

text \<open>
  With \<open>echo\<close> subscribed, the call leaves the envelope and after it the one that the
  handler has published.
\<close>

theorem publish_appends_to_history_witness:
  "message_history one_subscriber = [] \<and>
   (\<exists>out rest. publish (echo 2) ping one_subscriber = Some out \<and>
      message_history (world_of out) = message_history one_subscriber @ ping # rest \<and>
      message_history (world_of out) = [ping, ping])"
proof -
  have h: "after message_history (publish (echo 2) ping one_subscriber) = Some [ping, ping]"
    by code_simp
  then obtain out where out: "publish (echo 2) ping one_subscriber = Some out"
    by (auto simp: after_def)
  have d: "\<forall>h v out'. echo 2 h ping v = Some out' \<longrightarrow>
      prefix (message_history v) (message_history (world_of out'))"
    using echo_appends by blast
  have "message_history one_subscriber = []" by code_simp
  with publish_appends_to_history [OF out d] out h show ?thesis
    by (auto simp: after_def)
qed

text \<open>
  That the history holds the envelope exactly once more after the call than before it
  fails when a handler publishes the same envelope again: with \<open>echo\<close> subscribed, one
  call of \<^verbatim>\<open>publish\<close> on an empty history leaves the envelope in it twice.
\<close>

theorem publish_appends_to_history_counterexample:
  "count_list (message_history one_subscriber) ping = 0 \<and>
   after message_history (publish (echo 2) ping one_subscriber) = Some [ping, ping]"
  by code_simp

text \<open>
  C5 (as amended). For a non-empty trace id \<open>c\<close>, \<^verbatim>\<open>get_message_history(c)\<close> is the
  history restricted to the envelopes whose trace id is \<open>c\<close>, in the order of the
  history; with the empty string, or with no argument, it is the whole history. The
  history is the record of the envelopes published, in the order of publication: after
  the envelopes \<open>ms\<close> have been published in turn, with handlers that publish nothing
  themselves, it is the history from before followed by \<open>ms\<close> (and C2 says where the
  envelopes that handlers publish come to stand).
\<close>

theorem get_message_history_by_trace_id:
  "(c \<noteq> [] \<longrightarrow>
      get_message_history (Some c) w = filter (\<lambda>msg. trace_id msg = c) (message_history w)) \<and>
   get_message_history (Some []) w = message_history w \<and>
   get_message_history None w = message_history w \<and>
   (publish_each env ms w = Some w' \<longrightarrow>
      (\<forall>m h v out. env h m v = Some out \<longrightarrow> message_history (world_of out) = message_history v)
      \<longrightarrow> message_history w' = message_history w @ ms)"
  using publish_each_history [of env ms w w'] by (simp add: get_message_history_def)

text \<open>Four envelopes are published, the first and the last with the trace id \<^verbatim>\<open>"t-1"\<close>.\<close>

theorem get_message_history_by_trace_id_witness:
  "''t-1'' \<noteq> [] \<and>
   map_option message_history traced = Some [ping, no_receiver, other_type, ping] \<and>
   map_option (get_message_history (Some ''t-1'')) traced = Some [ping, ping] \<and>
   map_option (get_message_history None) traced = Some [ping, no_receiver, other_type, ping]"
proof -
  have h: "map_option message_history traced = Some [ping, no_receiver, other_type, ping]"
    by code_simp
  then obtain w where w: "traced = Some w" "message_history w = [ping, no_receiver, other_type, ping]"
    by auto
  have t: "trace_id ping = ''t-1''" "trace_id no_receiver \<noteq> ''t-1''" "trace_id other_type \<noteq> ''t-1''"
    by code_simp+
  from get_message_history_by_trace_id [of "''t-1''" w returning "[]" w] w t show ?thesis
    by auto
qed

text \<open>
  For the empty string as trace id the answer is not restricted: it holds envelopes whose
  trace id is not empty.
\<close>

theorem get_message_history_by_trace_id_counterexample:
  "map_option (get_message_history (Some '''')) traced = Some [ping, no_receiver, other_type, ping] \<and>
   trace_id ping \<noteq> ''''"
  by code_simp

subsection \<open>Sending\<close>




subsection \<open>What subscribing and publishing leave alone\<close>

text \<open>
  C10 (as amended). \<^verbatim>\<open>subscribe(r, cb)\<close> changes the subscriber list of \<open>r\<close>, to which it
  appends \<open>cb\<close>, and no other: the lists of all other identities and the history are as
  before. \<^verbatim>\<open>publish\<close> changes no subscriber list itself: when it comes back, by
  return or by exception, the table is as before, provided no handler changes it.
\<close>

theorem subscribe_and_publish_frame:
  "(\<forall>r'. r' \<noteq> r \<longrightarrow> subscribers (subscribe r cb w) r' = subscribers w r') \<and>
   subscribers (subscribe r cb w) r = Some (subscribers_of w r @ [cb]) \<and>
   message_history (subscribe r cb w) = message_history w \<and>
   (\<forall>out. publish env m w = Some out \<longrightarrow>
      (\<forall>h v out'. env h m v = Some out' \<longrightarrow> subscribers (world_of out') = subscribers v) \<longrightarrow>
      subscribers (world_of out) = subscribers w)"
proof -
  have "subscribers (world_of out) = subscribers w"
    if run: "publish env m w = Some out"
      and keep: "\<forall>h v out'. env h m v = Some out' \<longrightarrow> subscribers (world_of out') = subscribers v"
    for out
  proof (rule publish_frame [where P = "\<lambda>v. subscribers v = subscribers w", OF run])
    fix h v out'
    assume "subscribers v = subscribers w" and "env h m v = Some out'"
    with keep show "subscribers (world_of out') = subscribers w" by simp
  qed simp_all
  then show ?thesis by (simp add: subscribe_fields)
qed

text \<open>A third callable is subscribed; an envelope is published to two callables that return.\<close>

theorem subscribe_and_publish_frame_witness:
  "''A'' \<noteq> ''B'' \<and> subscribers (subscribe ''B'' (Function 3) two_subscribers) ''A'' = None \<and>
   subscribers (subscribe ''B'' (Function 3) two_subscribers) ''B''
     = Some [Function 1, Function 2, Function 3] \<and>
   (\<exists>out. publish returning ping two_subscribers = Some out \<and>
      subscribers (world_of out) = subscribers two_subscribers)"
proof -
  have "after message_history (publish returning ping two_subscribers) = Some [ping]"
    by code_simp
  then obtain out where out: "publish returning ping two_subscribers = Some out"
    by (auto simp: after_def)
  have k: "\<forall>h v out'. returning h ping v = Some out' \<longrightarrow> subscribers (world_of out') = subscribers v"
    by (auto simp: returning_def)
  have s: "subscribers two_subscribers ''A'' = None"
      "subscribers_of two_subscribers ''B'' = [Function 1, Function 2]"
    by code_simp+
  from subscribe_and_publish_frame [of "''B''" "Function 3" two_subscribers returning ping]
    out k s show ?thesis
    by auto
qed

text \<open>
  A handler may subscribe, and then the table has changed when \<^verbatim>\<open>publish\<close> returns:
  here the identity \<^verbatim>\<open>"C"\<close>, without subscribers before the call, has one after it.
\<close>

theorem subscribe_and_publish_frame_counterexample:
  "listed ''C'' one_subscriber = [] \<and>
   after (listed ''C'') (publish subscribing ping one_subscriber) = Some [Function 9]"
  by code_simp

end
